theory Spec2Isabelle
  imports Main "HOL-Library.Sublist"
begin

section \<open>JavaScript values shared by the panels\<close>

text \<open>
  Strings are lists of 8-bit characters, read as the code points U+0000 to U+00FF.
  \<open>String.prototype.trim\<close> removes white space and line terminators at both ends;
  among these code points that is tab, line feed, vertical tab, form feed, carriage
  return, space and no-break space (U+00A0).
\<close>

definition is_ws :: "char \<Rightarrow> bool" where
  "is_ws c = (c = CHR 0x09 \<or> c = CHR 0x0A \<or> c = CHR 0x0B \<or> c = CHR 0x0C
              \<or> c = CHR 0x0D \<or> c = CHR 0x20 \<or> c = CHR 0xA0)"

definition trim :: "string \<Rightarrow> string" where
  "trim s = rev (dropWhile is_ws (rev (dropWhile is_ws s)))"

text \<open>
  \<open>s += v\<close> on a string: a value that is \<open>undefined\<close> is converted to the text
  \<open>undefined\<close> before it is appended.
\<close>

definition js_append :: "string \<Rightarrow> string option \<Rightarrow> string" where
  "js_append s v = s @ (case v of None \<Rightarrow> ''undefined'' | Some t \<Rightarrow> t)"

text \<open>
  What a \<open>catch\<close> clause receives: the class of the thrown object, its \<open>message\<close> and
  its optional numeric \<open>status\<close>.
\<close>

datatype error_class = ApiKeyError | TypeError | Error

record js_error =
  err_class :: error_class
  message :: "string option"
  status :: "int option"

section \<open>Streaming text into a buffer (ChatView, ScriptGenieView)\<close>

text \<open>
  A response chunk of the SDK; its \<open>text\<close> accessor yields a string or \<open>undefined\<close>.
  The asynchronous iterator either delivers the next chunk or throws.
\<close>

record chunk =
  chunk_text :: "string option"

datatype stream_event = Deliver chunk | Fail js_error

definition text_chunk :: "string \<Rightarrow> stream_event" where
  "text_chunk t = Deliver \<lparr>chunk_text = Some t\<rparr>"

datatype role = User | Model

record ChatMessage =
  msg_id :: string
  msg_role :: role
  parts :: "string list"
  isStreaming :: bool

text \<open>
  The \<open>for await\<close> loop of \<open>handleSendMessage\<close> (streaming modes): every chunk is
  appended to \<open>fullResponse\<close> and the message with the model response's id is re-rendered
  with the buffer so far. The loop has no other exit than the end of the stream or
  an exception of the iterator; the result is that exception, if any, with the buffer
  and the messages as the loop leaves them.
\<close>

fun chat_stream_loop ::
  "string \<Rightarrow> stream_event list \<Rightarrow> string \<Rightarrow> ChatMessage list
     \<Rightarrow> js_error option \<times> string \<times> ChatMessage list" where
  "chat_stream_loop mid [] fullResponse msgs = (None, fullResponse, msgs)"
| "chat_stream_loop mid (Deliver c # es) fullResponse msgs =
     (let fullResponse' = js_append fullResponse (chunk_text c)
      in chat_stream_loop mid es fullResponse'
           (map (\<lambda>msg. if msg_id msg = mid then msg\<lparr>parts := [fullResponse']\<rparr> else msg) msgs))"
| "chat_stream_loop mid (Fail e # es) fullResponse msgs = (Some e, fullResponse, msgs)"

record chat_state =
  messages :: "ChatMessage list"
  chat_error :: "string option"
  chat_isLoading :: bool

text \<open>
  \<open>handleSendMessage\<close>, streaming branch, from the placeholder model message on.
  \<open>sent\<close> is the outcome of the steps up to \<open>chat.sendMessageStream\<close>: an exception
  or the stream. The second component is the final value of \<open>fullResponse\<close> when the
  loop finished. The \<open>catch\<close> clause removes the user's and the model's message.
\<close>

definition handleSendMessage_streaming ::
  "ChatMessage list \<Rightarrow> string \<Rightarrow> string \<Rightarrow> js_error + stream_event list
     \<Rightarrow> chat_state \<times> string option" where
  "handleSendMessage_streaming currentMessages user_id model_id sent =
     (let modelResponse = \<lparr>msg_id = model_id, msg_role = Model, parts = [''''], isStreaming = True\<rparr>;
          msgs0 = currentMessages @ [modelResponse];
          failed = (\<lambda>msgs. (\<lparr>messages = filter (\<lambda>m. msg_id m \<noteq> user_id \<and> msg_id m \<noteq> model_id) msgs,
                              chat_error = Some ''An error occurred. Please try again.'',
                              chat_isLoading = False\<rparr>, None))
      in case sent of
           Inl e \<Rightarrow> failed msgs0
         | Inr stream \<Rightarrow>
             (case chat_stream_loop model_id stream '''' msgs0 of
                (Some e, fullResponse, msgs) \<Rightarrow> failed msgs
              | (None, fullResponse, msgs) \<Rightarrow>
                  (\<lparr>messages = map (\<lambda>msg. if msg_id msg = model_id
                                           then msg\<lparr>isStreaming := False\<rparr> else msg) msgs,
                    chat_error = None, chat_isLoading = False\<rparr>, Some fullResponse)))"

text \<open>
  The loop of \<open>handleSubmit\<close> in ScriptGenieView: \<open>scriptContent\<close> is the buffer and
  \<open>setGeneratedScript\<close> shows it after every chunk. The pair is the buffer and the
  script on display.
\<close>

fun script_stream_loop ::
  "stream_event list \<Rightarrow> string \<Rightarrow> string \<Rightarrow> js_error + (string \<times> string)" where
  "script_stream_loop [] scriptContent generatedScript = Inr (scriptContent, generatedScript)"
| "script_stream_loop (Deliver c # es) scriptContent generatedScript =
     (let scriptContent' = js_append scriptContent (chunk_text c)
      in script_stream_loop es scriptContent' scriptContent')"
| "script_stream_loop (Fail e # es) scriptContent generatedScript = Inl e"

text \<open>
  What can happen, in order, while a streaming exchange runs: the transport delivers a
  chunk or fails, or the consumer cancels. While \<open>isLoading\<close> is set the controls of
  both panels are disabled, so the one way to end a session is to leave the panel, which
  unmounts the component. ChatView registers no cleanup for the exchange; the cleanup
  of ScriptGenieView is \<open>stopReading\<close>, which sets \<open>isStoppingRef\<close>, the stop flag of the
  speech reader. The handlers go on running after that. React discards the display
  updates of a panel that has been left, so a session is followed by the handler's own
  variables only: the buffer, and for the script panel the flag. Each transport event
  is one round of the handler's loop.
\<close>

datatype session_event = Transport stream_event | Cancel

fun chat_session :: "session_event list \<Rightarrow> string \<Rightarrow> js_error option \<times> string" where
  "chat_session [] fullResponse = (None, fullResponse)"
| "chat_session (Transport ev # evs) fullResponse =
     (case chat_stream_loop [] [ev] fullResponse [] of
        (Some e, fullResponse', msgs) \<Rightarrow> (Some e, fullResponse')
      | (None, fullResponse', msgs) \<Rightarrow> chat_session evs fullResponse')"
| "chat_session (Cancel # evs) fullResponse = chat_session evs fullResponse"

fun script_session ::
  "session_event list \<Rightarrow> string \<Rightarrow> bool \<Rightarrow> js_error option \<times> string \<times> bool" where
  "script_session [] scriptContent isStoppingRef = (None, scriptContent, isStoppingRef)"
| "script_session (Transport ev # evs) scriptContent isStoppingRef =
     (case script_stream_loop [ev] scriptContent '''' of
        Inl e \<Rightarrow> (Some e, scriptContent, isStoppingRef)
      | Inr (scriptContent', generatedScript) \<Rightarrow> script_session evs scriptContent' isStoppingRef)"
| "script_session (Cancel # evs) scriptContent isStoppingRef = script_session evs scriptContent True"




section \<open>Capped histories (ImageGenieView, ScriptGenieView)\<close>

record ScriptVersion =
  timestamp :: nat
  script :: string

record ImageHistoryEntry =
  img_id :: nat
  img_prompt :: string
  imageUrl :: string

datatype MediaType = Image | Video

record AnalysisHistoryEntry =
  an_id :: nat
  an_prompt :: string
  an_result :: string
  imageThumbnail :: string
  originalImage :: string
  mediaType :: MediaType

text \<open>
  \<open>saveScriptToHistory\<close>: \<open>key\<close> is the value of \<open>getHistoryKey()\<close> (\<open>null\<close> when the
  prompt is blank), \<open>now\<close> the value of \<open>Date.now()\<close>. Nothing is saved without a key or
  for an empty script; otherwise the new version is put in front and the list is cut
  to its first ten entries.
\<close>

definition saveScriptToHistory ::
  "string option \<Rightarrow> nat \<Rightarrow> string \<Rightarrow> ScriptVersion list \<Rightarrow> ScriptVersion list" where
  "saveScriptToHistory key now scr prevHistory =
     (if key = None \<or> scr = [] then prevHistory
      else take 10 (\<lparr>timestamp = now, script = scr\<rparr> # prevHistory))"

text \<open>
  The history updates of \<open>handleSubmit\<close> in ImageGenieView: the argument of
  \<open>updateHistory\<close> in generate mode and of \<open>updateAnalysisHistory\<close> in analyze mode.
\<close>

definition image_history_update ::
  "ImageHistoryEntry \<Rightarrow> ImageHistoryEntry list \<Rightarrow> ImageHistoryEntry list" where
  "image_history_update newEntry history = take 10 (newEntry # history)"

definition analysis_history_update ::
  "AnalysisHistoryEntry \<Rightarrow> AnalysisHistoryEntry list \<Rightarrow> AnalysisHistoryEntry list" where
  "analysis_history_update newEntry analysisHistory = take 10 (newEntry # analysisHistory)"

text \<open>
  \<open>handleSubmit\<close> of ScriptGenieView from the call of \<open>generateScriptStream\<close> on:
  the script on display and the version history after the exchange. A version is saved
  only when the trimmed buffer is not empty; an exception replaces the display by a
  fixed message.
\<close>

definition ScriptGenie_handleSubmit ::
  "string option \<Rightarrow> nat \<Rightarrow> js_error + stream_event list \<Rightarrow> ScriptVersion list
     \<Rightarrow> string \<times> ScriptVersion list" where
  "ScriptGenie_handleSubmit key now sent history =
     (let failed = (''Sorry, an error occurred while generating the script.'', history)
      in case sent of
           Inl e \<Rightarrow> failed
         | Inr stream \<Rightarrow>
             (case script_stream_loop stream '''' '''' of
                Inl e \<Rightarrow> failed
              | Inr (scriptContent, generatedScript) \<Rightarrow>
                  (generatedScript,
                   if trim scriptContent \<noteq> []
                   then saveScriptToHistory key now scriptContent history else history)))"

section \<open>The API facade (geminiService)\<close>

text \<open>
  \<open>String.prototype.includes\<close>: the argument occurs as a contiguous part of the string.
\<close>

fun str_includes :: "string \<Rightarrow> string \<Rightarrow> bool" where
  "str_includes [] sub = (sub = [])"
| "str_includes (c # cs) sub = (prefix sub (c # cs) \<or> str_includes cs sub)"

text \<open>
  A block of the facade yields what it returns or throws, together with the number of
  calls it has made to the SDK. \<open>no_call\<close> is a step that makes none (building the
  client, reading a file, shaping the response), \<open>sdk_call\<close> is one call with the
  answer it gets, and \<open>and_then\<close> runs a step after another: the first exception ends
  the block, and the calls add up.
\<close>

type_synonym 'a traced = "(js_error + 'a) \<times> nat"

definition no_call :: "js_error + 'a \<Rightarrow> 'a traced" where
  "no_call r = (r, 0)"

definition sdk_call :: "js_error + 'a \<Rightarrow> 'a traced" where
  "sdk_call answer = (answer, 1)"

definition and_then :: "'a traced \<Rightarrow> ('a \<Rightarrow> 'b traced) \<Rightarrow> 'b traced" where
  "and_then step f =
     (case step of
        (Inl e, n) \<Rightarrow> (Inl e, n)
      | (Inr v, n) \<Rightarrow> (case f v of (r, m) \<Rightarrow> (r, n + m)))"

definition api_key_missing :: js_error where
  "api_key_missing = \<lparr>err_class = ApiKeyError, message = Some ''API key is missing.'', status = None\<rparr>"

definition api_key_invalid :: js_error where
  "api_key_invalid = \<lparr>err_class = ApiKeyError,
     message = Some ''API key is invalid or has insufficient permissions.'', status = None\<rparr>"

definition type_error :: js_error where
  "type_error = \<lparr>err_class = TypeError, message = Some ''Cannot read properties of undefined'',
     status = None\<rparr>"

text \<open>
  \<open>getGenAI\<close>: \<open>apiKey\<close> is the value of \<open>process.env.API_KEY\<close>; an undefined or empty
  key is falsy. The client is represented by the key it was built with.
\<close>

definition getGenAI :: "string option \<Rightarrow> js_error + string" where
  "getGenAI apiKey =
     (case apiKey of
        None \<Rightarrow> Inl api_key_missing
      | Some k \<Rightarrow> if k = [] then Inl api_key_missing else Inr k)"

text \<open>
  \<open>handleApiError\<close>. \<open>Inl\<close> is the exception the call ends with, \<open>Inr ()\<close> would be a
  normal return to the \<open>catch\<close> clause that called it. Reading \<open>includes\<close> from a
  missing \<open>message\<close> is a \<open>TypeError\<close>. A status counts when it is truthy and lies in
  400..499.
\<close>

definition handleApiError :: "js_error \<Rightarrow> js_error + unit" where
  "handleApiError error =
     (case message error of
        None \<Rightarrow> Inl type_error
      | Some m \<Rightarrow>
          if str_includes m ''API key'' \<or> str_includes m ''permission denied''
             \<or> str_includes m ''was not found''
             \<or> (case status error of None \<Rightarrow> False
                 | Some s \<Rightarrow> s \<noteq> 0 \<and> (400 \<le> s \<and> s < 500))
          then Inl api_key_invalid
          else Inl error)"

text \<open>
  The failures the facade reports as a credential problem: the message contains
  \<open>API key\<close>, \<open>permission denied\<close> or \<open>was not found\<close>, or the status is a client error.
\<close>

definition credential_failure :: "string \<Rightarrow> int option \<Rightarrow> bool" where
  "credential_failure m st =
     (str_includes m ''API key'' \<or> str_includes m ''permission denied''
      \<or> str_includes m ''was not found''
      \<or> (case st of None \<Rightarrow> False | Some s \<Rightarrow> 400 \<le> s \<and> s < 500))"

text \<open>
  The two shapes of \<open>catch\<close> clause in the facade:
  \<open>catch (error) { handleApiError(error); throw error; }\<close> and
  \<open>catch (error) { handleApiError(error); return d; }\<close>. Neither calls the SDK.
\<close>

definition catch_rethrow :: "'a traced \<Rightarrow> 'a traced" where
  "catch_rethrow body =
     (case body of
        (Inr v, n) \<Rightarrow> (Inr v, n)
      | (Inl error, n) \<Rightarrow>
          (case handleApiError error of Inl e \<Rightarrow> (Inl e, n) | Inr u \<Rightarrow> (Inl error, n)))"

definition catch_return :: "'a \<Rightarrow> 'a traced \<Rightarrow> 'a traced" where
  "catch_return d body =
     (case body of
        (Inr v, n) \<Rightarrow> (Inr v, n)
      | (Inl error, n) \<Rightarrow>
          (case handleApiError error of Inl e \<Rightarrow> (Inl e, n) | Inr u \<Rightarrow> (Inr d, n)))"

text \<open>
  The operations. Each takes the configured key, the outcome of reading the attached
  file where there is one (\<open>fileToBase64\<close>), and the answer of the SDK to a call; it
  yields what its caller gets and the number of SDK calls it has made.
  \<open>generateVideo\<close> and \<open>checkVideoOperation\<close> build the client from the key as it is,
  without \<open>getGenAI\<close>.
\<close>

definition generateText :: "string option \<Rightarrow> js_error + string \<Rightarrow> string traced" where
  "generateText apiKey vendor =
     catch_rethrow (and_then (no_call (getGenAI apiKey)) (\<lambda>ai.
       and_then (sdk_call vendor) (\<lambda>response. no_call (Inr response))))"

definition generateImage :: "string option \<Rightarrow> js_error + string list \<Rightarrow> string traced" where
  "generateImage apiKey vendor =
     catch_rethrow (and_then (no_call (getGenAI apiKey)) (\<lambda>ai.
       and_then (sdk_call vendor) (\<lambda>generatedImages.
         no_call (case generatedImages of
                    [] \<Rightarrow> Inl type_error
                  | imageBytes # rest \<Rightarrow> Inr (''data:image/png;base64,'' @ imageBytes)))))"

definition analyzeImage ::
  "string option \<Rightarrow> js_error + string \<Rightarrow> js_error + string \<Rightarrow> string traced" where
  "analyzeImage apiKey file vendor =
     catch_rethrow (and_then (no_call (getGenAI apiKey)) (\<lambda>ai.
       and_then (no_call file) (\<lambda>base64Image.
       and_then (sdk_call vendor) (\<lambda>response. no_call (Inr response)))))"

definition analyzeVideo ::
  "string option \<Rightarrow> js_error + string \<Rightarrow> js_error + string \<Rightarrow> string traced" where
  "analyzeVideo apiKey file vendor =
     catch_rethrow (and_then (no_call (getGenAI apiKey)) (\<lambda>ai.
       and_then (no_call file) (\<lambda>base64Video.
       and_then (sdk_call vendor) (\<lambda>response. no_call (Inr response)))))"

definition generateScriptStream ::
  "string option \<Rightarrow> js_error + stream_event list \<Rightarrow> stream_event list traced" where
  "generateScriptStream apiKey vendor =
     catch_rethrow (and_then (no_call (getGenAI apiKey)) (\<lambda>ai.
       and_then (sdk_call vendor) (\<lambda>response. no_call (Inr response))))"

definition continueScriptStream ::
  "string option \<Rightarrow> js_error + stream_event list \<Rightarrow> stream_event list traced" where
  "continueScriptStream apiKey vendor =
     catch_rethrow (and_then (no_call (getGenAI apiKey)) (\<lambda>ai.
       and_then (sdk_call vendor) (\<lambda>response. no_call (Inr response))))"

definition transcribeAudio ::
  "string option \<Rightarrow> js_error + string \<Rightarrow> js_error + string \<Rightarrow> string traced" where
  "transcribeAudio apiKey file vendor =
     catch_return '''' (and_then (no_call (getGenAI apiKey)) (\<lambda>ai.
       and_then (no_call file) (\<lambda>audioBytes.
       and_then (sdk_call vendor) (\<lambda>response. no_call (Inr response)))))"

text \<open>
  \<open>suggestPrompts\<close>: the SDK call yields the text and \<open>parsed\<close> is the outcome of
  \<open>JSON.parse\<close> on the cleaned text. \<open>generateTts\<close>: the call yields the optional audio
  data of the first part.
\<close>

definition suggestPrompts ::
  "string option \<Rightarrow> js_error + (js_error + string list) \<Rightarrow> string list traced" where
  "suggestPrompts apiKey vendor =
     catch_return [] (and_then (no_call (getGenAI apiKey)) (\<lambda>ai.
       and_then (sdk_call vendor) (\<lambda>parsed. no_call parsed)))"

definition generateTts ::
  "string option \<Rightarrow> js_error + string option \<Rightarrow> string option traced" where
  "generateTts apiKey vendor =
     catch_return None (and_then (no_call (getGenAI apiKey)) (\<lambda>ai.
       and_then (sdk_call vendor) (\<lambda>base64Audio.
         no_call (Inr (case base64Audio of
                         None \<Rightarrow> None
                       | Some a \<Rightarrow> if a = [] then None else Some a)))))"

text \<open>
  The handler of TranscribeView: the text the panel shows after a recording has been
  sent to \<open>transcribeAudio\<close>.
\<close>

definition TranscribeView_handleTranscription ::
  "string option \<Rightarrow> js_error + string \<Rightarrow> js_error + string \<Rightarrow> string" where
  "TranscribeView_handleTranscription apiKey file vendor =
     (case fst (transcribeAudio apiKey file vendor) of
        Inr result \<Rightarrow> result
      | Inl error \<Rightarrow> ''Sorry, an error occurred during transcription.'')"

section \<open>Search-grounded generation: the list of sources\<close>

record web_chunk =
  uri :: "string option"
  title :: "string option"

record grounding_chunk =
  web :: "web_chunk option"

record grounding_source =
  src_uri :: "string option"
  src_title :: "string option"

text \<open>
  \<open>a || b\<close> on optional strings: \<open>a\<close> when it is a non-empty string, else \<open>b\<close>.
  \<open>Array.prototype.findIndex\<close> yields \<open>-1\<close> when no element satisfies the test, and the
  callback of \<open>Array.prototype.filter\<close> also receives the index and the whole array.
\<close>

definition js_or :: "string option \<Rightarrow> string option \<Rightarrow> string option" where
  "js_or a b = (case a of None \<Rightarrow> b | Some t \<Rightarrow> if t = [] then b else Some t)"

fun findIndex :: "('a \<Rightarrow> bool) \<Rightarrow> 'a list \<Rightarrow> int" where
  "findIndex P [] = - 1"
| "findIndex P (x # xs) =
     (if P x then 0 else (let i = findIndex P xs in if i < 0 then - 1 else i + 1))"

definition filter_index :: "('a \<Rightarrow> nat \<Rightarrow> 'a list \<Rightarrow> bool) \<Rightarrow> 'a list \<Rightarrow> 'a list" where
  "filter_index f self = map snd (filter (\<lambda>(index, x). f x index self) (enumerate 0 self))"

text \<open>
  The computation of \<open>groundingSources\<close> in \<open>generateGroundedContent\<close>: the \<open>web\<close>
  parts that are present, each turned into a source whose title falls back to the URI
  (\<open>web_sources\<close>), and of these the entries standing at the first index that carries
  their URI.
\<close>

definition web_sources :: "grounding_chunk list \<Rightarrow> grounding_source list" where
  "web_sources groundingChunks =
     map (\<lambda>webChunk. \<lparr>src_uri = uri webChunk, src_title = js_or (title webChunk) (uri webChunk)\<rparr>)
       (List.map_filter web groundingChunks)"

definition groundingSources_of :: "grounding_chunk list \<Rightarrow> grounding_source list" where
  "groundingSources_of groundingChunks =
     filter_index
       (\<lambda>source index self. int index = findIndex (\<lambda>s. src_uri s = src_uri source) self)
       (web_sources groundingChunks)"

text \<open>
  The list of sources as the specification words it: deduplicated by URI, order of
  first appearance preserved. An entry is kept unless its URI has been seen before.
\<close>

fun dedup_by_uri :: "string option set \<Rightarrow> grounding_source list \<Rightarrow> grounding_source list" where
  "dedup_by_uri seen [] = []"
| "dedup_by_uri seen (s # ss) =
     (if src_uri s \<in> seen then dedup_by_uri seen ss
      else s # dedup_by_uri (insert (src_uri s) seen) ss)"

text \<open>
  The sources of a list of chunks as the specification names them: one (URI, title)
  pair for each chunk that has a \<open>web\<close> part, in the order of the chunks; where the title
  is missing or empty the URI stands in for it.
\<close>

fun source_pairs :: "grounding_chunk list \<Rightarrow> grounding_source list" where
  "source_pairs [] = []"
| "source_pairs (c # cs) =
     (case web c of
        None \<Rightarrow> source_pairs cs
      | Some w \<Rightarrow>
          \<lparr>src_uri = uri w,
           src_title = (case title w of
                          None \<Rightarrow> uri w
                        | Some t \<Rightarrow> if t = [] then uri w else Some t)\<rparr>
          # source_pairs cs)"

definition web_chunk_of :: "string \<Rightarrow> string \<Rightarrow> grounding_chunk" where
  "web_chunk_of u t = \<lparr>web = Some \<lparr>uri = Some u, title = Some t\<rparr>\<rparr>"

record grounded_response =
  response_text :: string
  groundingChunks :: "grounding_chunk list option"

text \<open>
  \<open>generateGroundedContent\<close>: \<open>file\<close> is absent when no image is attached, else the
  outcome of reading it. Missing grounding metadata counts as an empty list of chunks.
\<close>

definition generateGroundedContent ::
  "string option \<Rightarrow> (js_error + string) option \<Rightarrow> js_error + grounded_response
     \<Rightarrow> (string \<times> grounding_source list) traced" where
  "generateGroundedContent apiKey file vendor =
     catch_rethrow (and_then (no_call (getGenAI apiKey)) (\<lambda>ai.
       and_then (no_call (case file of None \<Rightarrow> Inr [] | Some read \<Rightarrow> read)) (\<lambda>base64Image.
       and_then (sdk_call vendor) (\<lambda>response.
         no_call (Inr (response_text response,
                       groundingSources_of
                         (case groundingChunks response of None \<Rightarrow> [] | Some cs \<Rightarrow> cs)))))))"

section \<open>Video generation: the job poller (VideoFactoryView)\<close>

record op_metadata =
  progressPercent :: "int option"
  state :: "string option"

record VideoOperation =
  op_done :: bool
  metadata :: "op_metadata option"
  video_uri :: "string option"

definition generateVideo ::
  "string option \<Rightarrow> js_error + VideoOperation \<Rightarrow> VideoOperation traced" where
  "generateVideo apiKey vendor =
     catch_rethrow (and_then (sdk_call vendor) (\<lambda>operation. no_call (Inr operation)))"

definition checkVideoOperation ::
  "string option \<Rightarrow> js_error + VideoOperation \<Rightarrow> VideoOperation traced" where
  "checkVideoOperation apiKey vendor =
     catch_rethrow (and_then (sdk_call vendor) (\<lambda>operation. no_call (Inr operation)))"

datatype loading_message =
  Initializing | Rendering int | Processing | WaitingToStart | Finalizing

text \<open>
  The panel state the poller writes. \<open>progress_log\<close> lists the arguments of the calls of
  \<open>setProgress\<close> in order and \<open>polls\<close> counts the calls of \<open>checkVideoOperation\<close>.
\<close>

record video_state =
  progress :: int
  loadingMessage :: loading_message
  progress_log :: "int list"
  polls :: nat

text \<open>
  The status update after a poll that returned: a truthy \<open>progressPercent\<close> is shown as
  it is, else the phase decides the message.
\<close>

definition surface_status :: "VideoOperation \<Rightarrow> video_state \<Rightarrow> video_state" where
  "surface_status currentOperation st =
     (case (case metadata currentOperation of None \<Rightarrow> None | Some md \<Rightarrow> progressPercent md) of
        Some percent \<Rightarrow>
          if percent \<noteq> 0
          then st\<lparr>progress := percent, loadingMessage := Rendering percent,
                  progress_log := progress_log st @ [percent]\<rparr>
          else if (case metadata currentOperation of None \<Rightarrow> None | Some md \<Rightarrow> state md)
                    = Some ''PROCESSING''
          then st\<lparr>loadingMessage := Processing\<rparr>
          else st\<lparr>loadingMessage := WaitingToStart\<rparr>
      | None \<Rightarrow>
          if (case metadata currentOperation of None \<Rightarrow> None | Some md \<Rightarrow> state md)
               = Some ''PROCESSING''
          then st\<lparr>loadingMessage := Processing\<rparr>
          else st\<lparr>loadingMessage := WaitingToStart\<rparr>)"

text \<open>
  How a wait can stand: the function returned, it threw, or it is still in its loop
  because the vendor has not answered further polls yet.
\<close>

datatype 'a outcome = Returned 'a | Raised js_error | StillPolling

text \<open>
  The \<open>while (!currentOperation.done)\<close> loop of \<open>pollOperation\<close>. The list holds what
  the SDK answers to the successive polls, one answer per call; each round sleeps,
  polls once through \<open>checkVideoOperation\<close>, and rethrows what that throws.
\<close>

fun pollOperation_loop ::
  "string option \<Rightarrow> VideoOperation \<Rightarrow> (js_error + VideoOperation) list \<Rightarrow> video_state
     \<Rightarrow> VideoOperation outcome \<times> video_state" where
  "pollOperation_loop apiKey currentOperation [] st =
     (if op_done currentOperation then (Returned currentOperation, st) else (StillPolling, st))"
| "pollOperation_loop apiKey currentOperation (answer # answers) st =
     (if op_done currentOperation then (Returned currentOperation, st)
      else case fst (checkVideoOperation apiKey answer) of
             Inl err \<Rightarrow> (Raised err, st\<lparr>polls := polls st + 1\<rparr>)
           | Inr polled \<Rightarrow>
               pollOperation_loop apiKey polled answers
                 (surface_status polled (st\<lparr>polls := polls st + 1\<rparr>)))"

definition pollOperation ::
  "string option \<Rightarrow> VideoOperation \<Rightarrow> (js_error + VideoOperation) list \<Rightarrow> video_state
     \<Rightarrow> VideoOperation outcome \<times> video_state" where
  "pollOperation apiKey operation answers st =
     (case pollOperation_loop apiKey operation answers st of
        (Returned currentOperation, st') \<Rightarrow>
          (Returned currentOperation,
           st'\<lparr>progress := 100, loadingMessage := Finalizing,
               progress_log := progress_log st' @ [100]\<rparr>)
      | (Raised err, st') \<Rightarrow> (Raised err, st')
      | (StillPolling, st') \<Rightarrow> (StillPolling, st'))"

text \<open>
  An answer keeps the wait going when the poll returns an operation that is not done.
  \<open>reported_progress\<close> lists the truthy \<open>progressPercent\<close> values of the answers that
  returned, and \<open>polled_operation\<close> is an answer with the given \<open>done\<close> flag and progress.
\<close>

definition pending :: "string option \<Rightarrow> js_error + VideoOperation \<Rightarrow> bool" where
  "pending apiKey answer =
     (case fst (checkVideoOperation apiKey answer) of
        Inl err \<Rightarrow> False
      | Inr polled \<Rightarrow> \<not> op_done polled)"

definition truthy_progress :: "VideoOperation \<Rightarrow> int list" where
  "truthy_progress operation =
     (case metadata operation of
        None \<Rightarrow> []
      | Some md \<Rightarrow> (case progressPercent md of None \<Rightarrow> [] | Some p \<Rightarrow> if p = 0 then [] else [p]))"

definition reported_progress :: "string option \<Rightarrow> (js_error + VideoOperation) list \<Rightarrow> int list" where
  "reported_progress apiKey answers =
     concat (map (\<lambda>answer. case fst (checkVideoOperation apiKey answer) of
                              Inl err \<Rightarrow> [] | Inr polled \<Rightarrow> truthy_progress polled) answers)"

definition polled_operation :: "bool \<Rightarrow> int option \<Rightarrow> js_error + VideoOperation" where
  "polled_operation finished percent =
     Inr \<lparr>op_done = finished, metadata = Some \<lparr>progressPercent = percent, state = None\<rparr>,
          video_uri = None\<rparr>"

section \<open>Splitting a script for speech (ScriptGenieView)\<close>

text \<open>
  \<open>String.prototype.lastIndexOf\<close>: the greatest index at which the pattern starts, or
  \<open>-1\<close> when it does not occur.
\<close>

fun lastIndexOf :: "string \<Rightarrow> string \<Rightarrow> int" where
  "lastIndexOf [] pat = (if pat = [] then 0 else - 1)"
| "lastIndexOf (c # cs) pat =
     (let later = lastIndexOf cs pat
      in if 0 \<le> later then later + 1
         else if prefix pat (c # cs) then 0 else - 1)"

text \<open>
  The choice of \<open>splitIndex\<close> in \<open>chunkText\<close> for a text longer than \<open>maxLength\<close>: the
  last blank line within the first \<open>maxLength\<close> characters, else the last full stop
  followed by a space, else the last space; when there is none or it lies in the first
  half, \<open>maxLength\<close> itself. \<open>maxLength\<close> is a length, a natural number.
\<close>

definition splitIndex_of :: "nat \<Rightarrow> string \<Rightarrow> int" where
  "splitIndex_of maxLength remainingText =
     (let chunk = take maxLength remainingText;
          s1 = lastIndexOf chunk [CHR 0x0A, CHR 0x0A];
          s2 = (if s1 = - 1 then lastIndexOf chunk ''. '' else s1);
          s3 = (if s2 = - 1 then lastIndexOf chunk '' '' else s2)
      in if s3 = - 1 \<or> 2 * s3 < int maxLength then int maxLength else s3)"

text \<open>
  The loop of \<open>chunkText\<close>. A text of at most \<open>maxLength\<close> characters is the last chunk;
  of a longer one the characters up to and including \<open>splitIndex\<close> are cut off, and both
  parts are trimmed.
\<close>

function chunk_loop :: "nat \<Rightarrow> string \<Rightarrow> string list \<Rightarrow> string list" where
  "chunk_loop maxLength remainingText chunks =
     (if 0 < length remainingText then
        (if length remainingText \<le> maxLength then chunks @ [remainingText]
         else (let splitIndex = splitIndex_of maxLength remainingText
               in chunk_loop maxLength
                    (trim (drop (nat (splitIndex + 1)) remainingText))
                    (chunks @ [trim (take (nat (splitIndex + 1)) remainingText)])))
      else chunks)"
  by pat_completeness auto
termination
proof (relation "measure (\<lambda>(maxLength, remainingText, chunks). length remainingText)")
  show "wf (measure (\<lambda>(maxLength, remainingText, chunks). length remainingText))"
    by simp
next
  fix maxLength :: nat and remainingText :: string and chunks :: "string list" and x :: int
  assume pos: "0 < length remainingText" and x: "x = splitIndex_of maxLength remainingText"
  have "0 \<le> x"
    unfolding x splitIndex_of_def Let_def by (simp split: if_splits)
  then have "0 < nat (x + 1)"
    by simp
  then have "length (drop (nat (x + 1)) remainingText) < length remainingText"
    using pos by simp
  moreover have "length (trim s) \<le> length s" for s
    unfolding trim_def
    by (metis length_dropWhile_le length_rev le_trans)
  ultimately have "length (trim (drop (nat (x + 1)) remainingText)) < length remainingText"
    by (meson le_less_trans)
  then show "((maxLength, trim (drop (nat (x + 1)) remainingText),
               chunks @ [trim (take (nat (x + 1)) remainingText)]),
              (maxLength, remainingText, chunks))
             \<in> measure (\<lambda>(maxLength, remainingText, chunks). length remainingText)"
    by simp
qed

declare chunk_loop.simps [simp del]

definition chunkText :: "string \<Rightarrow> nat \<Rightarrow> string list" where
  "chunkText text maxLength =
     (if text = [] then [] else filter (\<lambda>c. 0 < length c) (chunk_loop maxLength text []))"

section \<open>Properties of the streaming loops\<close>

lemma chat_stream_loop_step:
  "chat_stream_loop mid (text_chunk c # es) buf msgs =
     chat_stream_loop mid es (buf @ c)
       (map (\<lambda>msg. if msg_id msg = mid then msg\<lparr>parts := [buf @ c]\<rparr> else msg) msgs)"
  by (simp add: text_chunk_def js_append_def Let_def)

lemma script_stream_loop_step:
  "script_stream_loop (text_chunk c # es) buf shown = script_stream_loop es (buf @ c) (buf @ c)"
  by (simp add: text_chunk_def js_append_def Let_def)

lemma chat_stream_loop_text:
  "chat_stream_loop mid (map text_chunk cs) buf msgs =
     (None, buf @ concat cs,
          if cs = [] then msgs
          else map (\<lambda>msg. if msg_id msg = mid then msg\<lparr>parts := [buf @ concat cs]\<rparr> else msg) msgs)"
proof (induction cs arbitrary: buf msgs)
  case Nil
  show ?case by simp
next
  case (Cons c cs)
  have "map (\<lambda>msg. if msg_id msg = mid then msg\<lparr>parts := [t]\<rparr> else msg)
          (map (\<lambda>msg. if msg_id msg = mid then msg\<lparr>parts := [u]\<rparr> else msg) msgs) =
        map (\<lambda>msg. if msg_id msg = mid then msg\<lparr>parts := [t]\<rparr> else msg) msgs" for t u
    by (induction msgs) simp_all
  then show ?case
    by (simp add: chat_stream_loop_step Cons.IH)
qed

lemma script_stream_loop_text:
  "script_stream_loop (map text_chunk cs) buf shown =
     Inr (buf @ concat cs, if cs = [] then shown else buf @ concat cs)"
proof (induction cs arbitrary: buf shown)
  case Nil
  show ?case by simp
next
  case (Cons c cs)
  show ?case
    by (simp add: script_stream_loop_step Cons.IH)
qed

lemma handleSendMessage_streaming_text:
  "snd (handleSendMessage_streaming cur uid mid (Inr (map text_chunk cs))) = Some (concat cs)
   \<and> last (messages (fst (handleSendMessage_streaming cur uid mid (Inr (map text_chunk cs)))))
       = \<lparr>msg_id = mid, msg_role = Model, parts = [concat cs], isStreaming = False\<rparr>"
  by (cases "cs = []")
     (simp_all add: handleSendMessage_streaming_def chat_stream_loop_text Let_def last_map)

text \<open>
  C1. For every sequence of text chunks delivered in order, both streaming loops end
  normally with a buffer equal to the concatenation of the chunks in delivery order,
  wherever the chunk boundaries fall; the chat handler leaves that text in the model
  message (no longer marked as streaming) and the script handler leaves it on display.
\<close>

theorem streamed_chunks_accumulate_to_concatenation:
  "(\<exists>msgs'. chat_stream_loop mid (map text_chunk cs) '''' msgs = (None, concat cs, msgs'))
   \<and> script_stream_loop (map text_chunk cs) '''' '''' = Inr (concat cs, concat cs)
   \<and> snd (handleSendMessage_streaming cur uid mid (Inr (map text_chunk cs))) = Some (concat cs)
   \<and> last (messages (fst (handleSendMessage_streaming cur uid mid (Inr (map text_chunk cs)))))
       = \<lparr>msg_id = mid, msg_role = Model, parts = [concat cs], isStreaming = False\<rparr>
   \<and> fst (ScriptGenie_handleSubmit key now (Inr (map text_chunk cs)) history) = concat cs"
proof -
  have "fst (ScriptGenie_handleSubmit key now (Inr (map text_chunk cs)) history) = concat cs"
    by (simp add: ScriptGenie_handleSubmit_def script_stream_loop_text)
  then show ?thesis
    by (simp add: chat_stream_loop_text script_stream_loop_text handleSendMessage_streaming_text)
qed

lemma hello_world_chunks:
  "script_stream_loop (map text_chunk [''Hel'', ''lo, wor'', ''ld'']) '''' ''''
     = Inr (''Hello, world'', ''Hello, world'')"
  by (simp add: script_stream_loop_step)

lemma chat_session_agrees_with_loop:
  "chat_session (map Transport es) buf =
     (fst (chat_stream_loop mid es buf msgs), fst (snd (chat_stream_loop mid es buf msgs)))"
proof (induction es arbitrary: buf msgs)
  case Nil
  show ?case by simp
next
  case (Cons ev es)
  show ?case
    by (cases ev) (simp_all add: Let_def Cons.IH)
qed

lemma script_session_agrees_with_loop:
  "script_stream_loop es buf shown = Inr (b, g)
     \<Longrightarrow> script_session (map Transport es) buf flag = (None, b, flag)"
  "script_stream_loop es buf shown = Inl e
     \<Longrightarrow> fst (script_session (map Transport es) buf flag) = Some e"
proof (induction es arbitrary: buf shown)
  case Nil
  { case 1 then show ?case by simp }
  { case 2 then show ?case by simp }
next
  case (Cons ev es)
  { case 1 then show ?case
      using Cons.IH(1) by (cases ev) (simp_all add: Let_def) }
  { case 2 then show ?case
      using Cons.IH(2) by (cases ev) (simp_all add: Let_def) }
qed








section \<open>Properties of the capped histories\<close>

lemma take_ten_at_capacity:
  assumes "length h = 10"
  shows "take 10 (e # h) = e # butlast h"
proof -
  have "take 10 (e # h) = e # take 9 h"
    by (simp add: take_Cons')
  moreover have "butlast h = take 9 h"
    using assms by (simp add: butlast_conv_take)
  ultimately show ?thesis by simp
qed

lemma dropped_entry_absent:
  assumes "distinct (e # h)" and "h \<noteq> []"
  shows "last h \<notin> set (e # butlast h)"
proof -
  have "h = butlast h @ [last h]"
    using assms(2) by simp
  then have "distinct (butlast h @ [last h])"
    using assms(1) by (metis distinct.simps(2))
  then have "last h \<notin> set (butlast h)"
    by simp
  moreover have "e \<noteq> last h"
    using assms by auto
  ultimately show ?thesis by auto
qed

text \<open>
  C7. Saving into a history that already holds ten entries (the image-generation
  history, the analysis history, and the version history of a prompt when there is a
  history key and a non-empty script) gives exactly ten entries: the new entry first,
  then the former entries in their order without the former last one, which is the
  oldest; where the entries are pairwise different the dropped entry no longer occurs.
\<close>

theorem history_save_at_capacity_evicts_oldest:
  assumes "length hs = 10" and "length hi = 10" and "length ha = 10" and "scr \<noteq> []"
  shows "saveScriptToHistory (Some k) now scr hs = \<lparr>timestamp = now, script = scr\<rparr> # butlast hs
         \<and> length (saveScriptToHistory (Some k) now scr hs) = 10
         \<and> hs = tl (saveScriptToHistory (Some k) now scr hs) @ [last hs]
         \<and> (distinct (\<lparr>timestamp = now, script = scr\<rparr> # hs)
              \<longrightarrow> last hs \<notin> set (saveScriptToHistory (Some k) now scr hs))
         \<and> image_history_update ei hi = ei # butlast hi
         \<and> length (image_history_update ei hi) = 10
         \<and> hi = tl (image_history_update ei hi) @ [last hi]
         \<and> (distinct (ei # hi) \<longrightarrow> last hi \<notin> set (image_history_update ei hi))
         \<and> analysis_history_update ea ha = ea # butlast ha
         \<and> length (analysis_history_update ea ha) = 10
         \<and> ha = tl (analysis_history_update ea ha) @ [last ha]
         \<and> (distinct (ea # ha) \<longrightarrow> last ha \<notin> set (analysis_history_update ea ha))"
proof -
  have ne: "hs \<noteq> []" "hi \<noteq> []" "ha \<noteq> []"
    using assms by auto
  have s: "saveScriptToHistory (Some k) now scr hs = \<lparr>timestamp = now, script = scr\<rparr> # butlast hs"
    using assms(4)
    by (simp only: saveScriptToHistory_def take_ten_at_capacity [OF assms(1)]
        option.simps simp_thms if_False)
  have i: "image_history_update ei hi = ei # butlast hi"
    by (simp only: image_history_update_def take_ten_at_capacity [OF assms(2)])
  have a: "analysis_history_update ea ha = ea # butlast ha"
    by (simp only: analysis_history_update_def take_ten_at_capacity [OF assms(3)])
  show ?thesis
    unfolding s i a
    using assms ne dropped_entry_absent [of "\<lparr>timestamp = now, script = scr\<rparr>" hs]
      dropped_entry_absent [of ei hi] dropped_entry_absent [of ea ha]
    by simp
qed

theorem history_save_at_capacity_witness:
  "saveScriptToHistory (Some ''k'') 11 ''s''
         (map (\<lambda>n. \<lparr>timestamp = n, script = ''s''\<rparr>) [10, 9, 8, 7, 6, 5, 4, 3, 2, 1])
       = map (\<lambda>n. \<lparr>timestamp = n, script = ''s''\<rparr>) [11, 10, 9, 8, 7, 6, 5, 4, 3, 2]
   \<and> \<lparr>timestamp = 1, script = ''s''\<rparr> \<notin> set (saveScriptToHistory (Some ''k'') 11 ''s''
         (map (\<lambda>n. \<lparr>timestamp = n, script = ''s''\<rparr>) [10, 9, 8, 7, 6, 5, 4, 3, 2, 1]))
   \<and> image_history_update \<lparr>img_id = 11, img_prompt = ''p'', imageUrl = ''u''\<rparr>
         (map (\<lambda>n. \<lparr>img_id = n, img_prompt = ''p'', imageUrl = ''u''\<rparr>) [10, 9, 8, 7, 6, 5, 4, 3, 2, 1])
       = map (\<lambda>n. \<lparr>img_id = n, img_prompt = ''p'', imageUrl = ''u''\<rparr>) [11, 10, 9, 8, 7, 6, 5, 4, 3, 2]
   \<and> analysis_history_update
         \<lparr>an_id = 11, an_prompt = ''p'', an_result = ''r'', imageThumbnail = ''t'',
           originalImage = ''o'', mediaType = Image\<rparr>
         (map (\<lambda>n. \<lparr>an_id = n, an_prompt = ''p'', an_result = ''r'', imageThumbnail = ''t'',
                     originalImage = ''o'', mediaType = Image\<rparr>) [10, 9, 8, 7, 6, 5, 4, 3, 2, 1])
       = map (\<lambda>n. \<lparr>an_id = n, an_prompt = ''p'', an_result = ''r'', imageThumbnail = ''t'',
                     originalImage = ''o'', mediaType = Image\<rparr>) [11, 10, 9, 8, 7, 6, 5, 4, 3, 2]"
proof -
  let ?hs = "map (\<lambda>n. \<lparr>timestamp = n, script = ''s''\<rparr>) [10, 9, 8, 7, 6, 5, 4, 3, 2, 1]"
  let ?hi = "map (\<lambda>n. \<lparr>img_id = n, img_prompt = ''p'', imageUrl = ''u''\<rparr>) [10, 9, 8, 7, 6, 5, 4, 3, 2, 1]"
  let ?ha = "map (\<lambda>n. \<lparr>an_id = n, an_prompt = ''p'', an_result = ''r'', imageThumbnail = ''t'',
                     originalImage = ''o'', mediaType = Image\<rparr>) [10, 9, 8, 7, 6, 5, 4, 3, 2, 1]"
  have l: "length ?hs = 10" "length ?hi = 10" "length ?ha = 10" "''s'' \<noteq> []"
    by simp_all
  note t = history_save_at_capacity_evicts_oldest [OF l, of "''k''" 11
        "\<lparr>img_id = 11, img_prompt = ''p'', imageUrl = ''u''\<rparr>"
        "\<lparr>an_id = 11, an_prompt = ''p'', an_result = ''r'', imageThumbnail = ''t'',
           originalImage = ''o'', mediaType = Image\<rparr>"]
  have d: "distinct (\<lparr>timestamp = 11, script = ''s''\<rparr> # ?hs)"
    by simp
  have s: "saveScriptToHistory (Some ''k'') 11 ''s'' ?hs
       = map (\<lambda>n. \<lparr>timestamp = n, script = ''s''\<rparr>) [11, 10, 9, 8, 7, 6, 5, 4, 3, 2]"
    using t [THEN conjunct1] by simp
  have la: "last ?hs = \<lparr>timestamp = 1, script = ''s''\<rparr>"
    by simp
  have a: "\<lparr>timestamp = 1, script = ''s''\<rparr> \<notin> set (saveScriptToHistory (Some ''k'') 11 ''s'' ?hs)"
    using t [THEN conjunct2, THEN conjunct2, THEN conjunct2, THEN conjunct1] d
    unfolding la by blast
  have i: "image_history_update \<lparr>img_id = 11, img_prompt = ''p'', imageUrl = ''u''\<rparr> ?hi
       = map (\<lambda>n. \<lparr>img_id = n, img_prompt = ''p'', imageUrl = ''u''\<rparr>) [11, 10, 9, 8, 7, 6, 5, 4, 3, 2]"
    using t [THEN conjunct2, THEN conjunct2, THEN conjunct2, THEN conjunct2, THEN conjunct1]
    by simp
  have an: "analysis_history_update
         \<lparr>an_id = 11, an_prompt = ''p'', an_result = ''r'', imageThumbnail = ''t'',
           originalImage = ''o'', mediaType = Image\<rparr> ?ha
       = map (\<lambda>n. \<lparr>an_id = n, an_prompt = ''p'', an_result = ''r'', imageThumbnail = ''t'',
                     originalImage = ''o'', mediaType = Image\<rparr>) [11, 10, 9, 8, 7, 6, 5, 4, 3, 2]"
    using t [THEN conjunct2, THEN conjunct2, THEN conjunct2, THEN conjunct2,
             THEN conjunct2, THEN conjunct2, THEN conjunct2, THEN conjunct2, THEN conjunct1]
    by simp
  show ?thesis
    using s a i an by (simp only: simp_thms)
qed

section \<open>Properties of \<open>chunkText\<close>\<close>

text \<open>
  What does hold for every text and every \<open>maxLength\<close>: the loop ends, no chunk is
  empty, and no chunk has more than \<open>maxLength + 1\<close> characters.
\<close>

lemma lastIndexOf_le: "lastIndexOf s pat \<le> int (length s)"
  by (induction s) (auto simp: Let_def)

lemma splitIndex_of_bounds:
  "0 \<le> splitIndex_of maxLength remainingText"
  "splitIndex_of maxLength remainingText \<le> int maxLength"
proof -
  show "0 \<le> splitIndex_of maxLength remainingText"
    unfolding splitIndex_of_def Let_def by (simp split: if_splits)
  have "lastIndexOf (take maxLength remainingText) pat \<le> int maxLength" for pat
    using lastIndexOf_le [of "take maxLength remainingText" pat] by simp
  then show "splitIndex_of maxLength remainingText \<le> int maxLength"
    unfolding splitIndex_of_def Let_def by simp
qed

lemma length_trim_le: "length (trim s) \<le> length s"
  unfolding trim_def by (metis length_dropWhile_le length_rev le_trans)

lemma chunk_loop_lengths:
  "set (chunk_loop maxLength remainingText chunks)
     \<subseteq> set chunks \<union> {c. length c \<le> maxLength + 1}"
proof (induction maxLength remainingText chunks rule: chunk_loop.induct)
  case (1 maxLength remainingText chunks)
  show ?case
  proof (cases "0 < length remainingText \<and> \<not> length remainingText \<le> maxLength")
    case False
    then show ?thesis
      by (auto simp: chunk_loop.simps [of maxLength remainingText chunks])
  next
    case True
    let ?n = "nat (splitIndex_of maxLength remainingText + 1)"
    have "?n \<le> maxLength + 1"
      using splitIndex_of_bounds [of maxLength remainingText] by simp
    then have cut: "length (trim (take ?n remainingText)) \<le> maxLength + 1"
      using length_trim_le [of "take ?n remainingText"] by simp
    have "set (chunk_loop maxLength (trim (drop ?n remainingText))
                 (chunks @ [trim (take ?n remainingText)]))
            \<subseteq> set (chunks @ [trim (take ?n remainingText)]) \<union> {c. length c \<le> maxLength + 1}"
      using True by (intro "1.IH") simp_all
    moreover have "chunk_loop maxLength remainingText chunks =
        chunk_loop maxLength (trim (drop ?n remainingText)) (chunks @ [trim (take ?n remainingText)])"
      using True by (simp add: chunk_loop.simps [of maxLength remainingText chunks] Let_def)
    ultimately show ?thesis
      using cut by auto
  qed
qed

lemma chunkText_chunks_bounded:
  assumes "c \<in> set (chunkText t maxLength)"
  shows "c \<noteq> [] \<and> length c \<le> maxLength + 1"
proof -
  have "c \<noteq> []"
    using assms by (auto simp: chunkText_def split: if_splits)
  moreover have "length c \<le> maxLength + 1"
    using assms chunk_loop_lengths [of maxLength t "[]"]
    by (auto simp: chunkText_def split: if_splits)
  ultimately show ?thesis by simp
qed

text \<open>
  C10. \<open>chunkText\<close> is total (its loop is defined with a termination proof) and
  returns no empty chunk, but a chunk can be one character longer than \<open>maxLength\<close>:
  when the first \<open>maxLength\<close> characters hold no usable separator, \<open>splitIndex\<close> is
  \<open>maxLength\<close> and \<open>substring(0, splitIndex + 1)\<close> takes \<open>maxLength + 1\<close> characters.
  With \<open>maxLength = 4\<close> the text \<open>abcdefgh\<close> gives a first chunk of five characters.
\<close>

theorem chunkText_chunk_longer_than_maxLength:
  "chunkText ''abcdefgh'' 4 = [''abcde'', ''fgh'']
   \<and> length (hd (chunkText ''abcdefgh'' 4)) = 5"
  by (simp add: chunkText_def chunk_loop.simps splitIndex_of_def trim_def is_ws_def)

section \<open>Properties of the API facade\<close>

lemma and_then_no_call:
  "and_then (no_call (Inl e)) f = (Inl e, 0)"
  "and_then (no_call (Inr v)) f = f v"
  by (simp_all add: and_then_def no_call_def split: prod.splits)

lemma and_then_sdk_call:
  "and_then (sdk_call (Inl e)) f = (Inl e, 1)"
  "and_then (sdk_call (Inr v)) f = (fst (f v), 1 + snd (f v))"
  by (simp_all add: and_then_def sdk_call_def split: prod.splits)

lemma handleApiError_throws:
  "handleApiError e =
     Inl (case message e of None \<Rightarrow> type_error
          | Some m \<Rightarrow> if credential_failure m (status e) then api_key_invalid else e)"
  by (auto simp: handleApiError_def credential_failure_def split: option.splits)

lemma catch_rethrow_simps:
  "catch_rethrow (Inr v, n) = (Inr v, n)"
  "catch_rethrow (Inl e, n) =
     (Inl (case message e of None \<Rightarrow> type_error
           | Some m \<Rightarrow> if credential_failure m (status e) then api_key_invalid else e), n)"
  by (simp_all add: catch_rethrow_def handleApiError_throws)

lemma catch_return_simps:
  "catch_return d (Inr v, n) = (Inr v, n)"
  "catch_return d (Inl e, n) =
     (Inl (case message e of None \<Rightarrow> type_error
           | Some m \<Rightarrow> if credential_failure m (status e) then api_key_invalid else e), n)"
  by (simp_all add: catch_return_def handleApiError_throws)

lemma missing_key_is_credential_failure:
  "credential_failure ''API key is missing.'' None"
  by (simp add: credential_failure_def)

lemma catch_missing:
  "catch_rethrow (Inl api_key_missing, n) = (Inl api_key_invalid, n)"
  "catch_return d (Inl api_key_missing, n) = (Inl api_key_invalid, n)"
  by (simp_all add: catch_rethrow_simps catch_return_simps api_key_missing_def
      missing_key_is_credential_failure)

lemma getGenAI_configured: "k \<noteq> [] \<Longrightarrow> getGenAI (Some k) = Inr k"
  by (simp add: getGenAI_def)

lemma getGenAI_missing: "getGenAI None = Inl api_key_missing" "getGenAI (Some []) = Inl api_key_missing"
  by (simp_all add: getGenAI_def)

lemma calls_of_steps:
  "snd (no_call r) = 0"
  "snd (catch_rethrow body) = snd body"
  "snd (catch_return d body) = snd body"
  "snd (and_then (no_call r) f) = (case r of Inl e \<Rightarrow> 0 | Inr v \<Rightarrow> snd (f v))"
  "snd (and_then (sdk_call r) f) = (case r of Inl e \<Rightarrow> 1 | Inr v \<Rightarrow> 1 + snd (f v))"
  by (auto simp: no_call_def sdk_call_def and_then_def catch_rethrow_def catch_return_def
      handleApiError_throws split: prod.splits sum.splits)

text \<open>
  C4. When the SDK call of \<open>transcribeAudio\<close> throws, the \<open>catch\<close> clause calls
  \<open>handleApiError\<close>, which always throws, so \<open>return ''\<close> is never reached: the caller
  gets the exception, and the transcription panel shows its error text, not an empty
  string. Evaluated for a configured key and a vendor failure with status 500.
\<close>

theorem transcribeAudio_propagates_vendor_failure:
  "transcribeAudio (Some ''key'') (Inr ''audio'')
       (Inl \<lparr>err_class = Error, message = Some ''Internal error encountered.'', status = Some 500\<rparr>)
     = (Inl \<lparr>err_class = Error, message = Some ''Internal error encountered.'', status = Some 500\<rparr>,
        1)
   \<and> TranscribeView_handleTranscription (Some ''key'') (Inr ''audio'')
       (Inl \<lparr>err_class = Error, message = Some ''Internal error encountered.'', status = Some 500\<rparr>)
     = ''Sorry, an error occurred during transcription.''"
  by (simp add: transcribeAudio_def TranscribeView_handleTranscription_def and_then_no_call
      and_then_sdk_call getGenAI_def catch_return_simps credential_failure_def)

lemma transcribeAudio_never_returns_default:
  "fst (transcribeAudio apiKey audio (Inl e)) \<noteq> Inr r"
  by (cases "getGenAI apiKey"; cases audio)
     (simp_all add: transcribeAudio_def and_then_no_call and_then_sdk_call catch_return_simps)


text \<open>
  C5 as stated fails. With a credential configured, a vendor failure whose message is
  \<open>Requested entity was not found.\<close>, with no status and no wording about keys or
  permissions, makes \<open>generateText\<close> fail with \<open>ApiKeyError\<close>. And \<open>generateVideo\<close>
  makes no credential check: without a key it ends with whatever the SDK throws, here an
  ordinary error that stays one.
\<close>

theorem not_found_failure_reported_as_credential_counterexample:
  "generateText (Some ''key'')
       (Inl \<lparr>err_class = Error, message = Some ''Requested entity was not found.'', status = None\<rparr>)
     = (Inl api_key_invalid, 1)
   \<and> err_class api_key_invalid = ApiKeyError
   \<and> getGenAI (Some ''key'') = Inr ''key''
   \<and> \<not> str_includes ''Requested entity was not found.'' ''API key''
   \<and> \<not> str_includes ''Requested entity was not found.'' ''permission denied''
   \<and> generateVideo None
       (Inl \<lparr>err_class = Error, message = Some ''An API Key must be set.'', status = None\<rparr>)
     = (Inl \<lparr>err_class = Error, message = Some ''An API Key must be set.'', status = None\<rparr>, 1)"
  by (simp add: generateText_def generateVideo_def and_then_no_call and_then_sdk_call
      getGenAI_def catch_rethrow_simps credential_failure_def api_key_invalid_def)

text \<open>
  C5, amended. \<open>handleApiError\<close> always throws. Every operation that gets its client
  from \<open>getGenAI\<close> (all but \<open>generateVideo\<close> and \<open>checkVideoOperation\<close>, which make no
  credential check of their own) fails with \<open>ApiKeyError\<close> when no credential is
  configured, the key being undefined or empty, and then makes no call to the SDK. When
  the SDK call of any operation fails with an error that has a message, the caller gets
  an \<open>ApiKeyError\<close> exactly when the message contains \<open>API key\<close>, \<open>permission denied\<close> or
  \<open>was not found\<close> or the status lies in 400..499, and gets the vendor's error unchanged
  otherwise; the failed call has been the only one. Whatever its arguments, no
  operation calls the SDK more than once: nothing is retried.
\<close>

theorem facade_credential_error_classification:
  assumes "message e = Some m" and "k \<noteq> []" and "nokey = None \<or> nokey = Some []"
  shows "handleApiError e = Inl (if credential_failure m (status e) then api_key_invalid else e)
     \<and> err_class api_key_invalid = ApiKeyError
     \<and> generateText nokey v1 = (Inl api_key_invalid, 0)
     \<and> generateGroundedContent nokey f2 v2 = (Inl api_key_invalid, 0)
     \<and> generateImage nokey v3 = (Inl api_key_invalid, 0)
     \<and> analyzeImage nokey f4 v4 = (Inl api_key_invalid, 0)
     \<and> analyzeVideo nokey f5 v5 = (Inl api_key_invalid, 0)
     \<and> generateScriptStream nokey v6 = (Inl api_key_invalid, 0)
     \<and> continueScriptStream nokey v7 = (Inl api_key_invalid, 0)
     \<and> transcribeAudio nokey f8 v8 = (Inl api_key_invalid, 0)
     \<and> suggestPrompts nokey v9 = (Inl api_key_invalid, 0)
     \<and> generateTts nokey v10 = (Inl api_key_invalid, 0)
     \<and> generateText (Some k) (Inl e)
         = (Inl (if credential_failure m (status e) then api_key_invalid else e), 1)
     \<and> generateGroundedContent (Some k) None (Inl e)
         = (Inl (if credential_failure m (status e) then api_key_invalid else e), 1)
     \<and> generateGroundedContent (Some k) (Some (Inr img)) (Inl e)
         = (Inl (if credential_failure m (status e) then api_key_invalid else e), 1)
     \<and> generateImage (Some k) (Inl e)
         = (Inl (if credential_failure m (status e) then api_key_invalid else e), 1)
     \<and> analyzeImage (Some k) (Inr img) (Inl e)
         = (Inl (if credential_failure m (status e) then api_key_invalid else e), 1)
     \<and> analyzeVideo (Some k) (Inr vid) (Inl e)
         = (Inl (if credential_failure m (status e) then api_key_invalid else e), 1)
     \<and> generateScriptStream (Some k) (Inl e)
         = (Inl (if credential_failure m (status e) then api_key_invalid else e), 1)
     \<and> continueScriptStream (Some k) (Inl e)
         = (Inl (if credential_failure m (status e) then api_key_invalid else e), 1)
     \<and> transcribeAudio (Some k) (Inr aud) (Inl e)
         = (Inl (if credential_failure m (status e) then api_key_invalid else e), 1)
     \<and> suggestPrompts (Some k) (Inl e)
         = (Inl (if credential_failure m (status e) then api_key_invalid else e), 1)
     \<and> generateTts (Some k) (Inl e)
         = (Inl (if credential_failure m (status e) then api_key_invalid else e), 1)
     \<and> generateVideo key (Inl e)
         = (Inl (if credential_failure m (status e) then api_key_invalid else e), 1)
     \<and> checkVideoOperation key (Inl e)
         = (Inl (if credential_failure m (status e) then api_key_invalid else e), 1)
     \<and> snd (generateText a1 w1) \<le> 1
     \<and> snd (generateGroundedContent a2 g2 w2) \<le> 1
     \<and> snd (generateImage a3 w3) \<le> 1
     \<and> snd (analyzeImage a4 g4 w4) \<le> 1
     \<and> snd (analyzeVideo a5 g5 w5) \<le> 1
     \<and> snd (generateScriptStream a6 w6) \<le> 1
     \<and> snd (continueScriptStream a7 w7) \<le> 1
     \<and> snd (transcribeAudio a8 g8 w8) \<le> 1
     \<and> snd (suggestPrompts a9 w9) \<le> 1
     \<and> snd (generateTts a10 w10) \<le> 1
     \<and> snd (generateVideo a11 w11) \<le> 1
     \<and> snd (checkVideoOperation a12 w12) \<le> 1"
proof -
  let ?c = "if credential_failure m (status e) then api_key_invalid else e"
  have h: "handleApiError e = Inl ?c"
    using assms(1) by (simp add: handleApiError_throws)
  have c: "catch_rethrow (Inl e, n) = (Inl ?c, n)" "catch_return d (Inl e, n) = (Inl ?c, n)"
    for n and d :: 'a
    using assms(1) by (simp_all add: catch_rethrow_simps catch_return_simps)
  have g: "getGenAI (Some k) = Inr k"
    using assms(2) by (rule getGenAI_configured)
  have n: "getGenAI nokey = Inl api_key_missing"
    using assms(3) by (auto simp: getGenAI_missing)
  have missing:
    "generateText nokey v1 = (Inl api_key_invalid, 0)"
    "generateGroundedContent nokey f2 v2 = (Inl api_key_invalid, 0)"
    "generateImage nokey v3 = (Inl api_key_invalid, 0)"
    "analyzeImage nokey f4 v4 = (Inl api_key_invalid, 0)"
    "analyzeVideo nokey f5 v5 = (Inl api_key_invalid, 0)"
    "generateScriptStream nokey v6 = (Inl api_key_invalid, 0)"
    "continueScriptStream nokey v7 = (Inl api_key_invalid, 0)"
    "transcribeAudio nokey f8 v8 = (Inl api_key_invalid, 0)"
    "suggestPrompts nokey v9 = (Inl api_key_invalid, 0)"
    "generateTts nokey v10 = (Inl api_key_invalid, 0)"
    by (simp_all only: generateText_def generateGroundedContent_def generateImage_def
        analyzeImage_def analyzeVideo_def generateScriptStream_def continueScriptStream_def
        transcribeAudio_def suggestPrompts_def generateTts_def
        n and_then_no_call catch_missing)
  have failing:
    "generateText (Some k) (Inl e) = (Inl ?c, 1)"
    "generateGroundedContent (Some k) None (Inl e) = (Inl ?c, 1)"
    "generateGroundedContent (Some k) (Some (Inr img)) (Inl e) = (Inl ?c, 1)"
    "generateImage (Some k) (Inl e) = (Inl ?c, 1)"
    "analyzeImage (Some k) (Inr img) (Inl e) = (Inl ?c, 1)"
    "analyzeVideo (Some k) (Inr vid) (Inl e) = (Inl ?c, 1)"
    "generateScriptStream (Some k) (Inl e) = (Inl ?c, 1)"
    "continueScriptStream (Some k) (Inl e) = (Inl ?c, 1)"
    "transcribeAudio (Some k) (Inr aud) (Inl e) = (Inl ?c, 1)"
    "suggestPrompts (Some k) (Inl e) = (Inl ?c, 1)"
    "generateTts (Some k) (Inl e) = (Inl ?c, 1)"
    "generateVideo key (Inl e) = (Inl ?c, 1)"
    "checkVideoOperation key (Inl e) = (Inl ?c, 1)"
    by (simp_all only: generateText_def generateGroundedContent_def generateImage_def
        analyzeImage_def analyzeVideo_def generateScriptStream_def continueScriptStream_def
        transcribeAudio_def suggestPrompts_def generateTts_def
        generateVideo_def checkVideoOperation_def
        g c and_then_no_call and_then_sdk_call option.case)
  have once:
    "snd (generateText a1 w1) \<le> 1"
    "snd (generateGroundedContent a2 g2 w2) \<le> 1"
    "snd (generateImage a3 w3) \<le> 1"
    "snd (analyzeImage a4 g4 w4) \<le> 1"
    "snd (analyzeVideo a5 g5 w5) \<le> 1"
    "snd (generateScriptStream a6 w6) \<le> 1"
    "snd (continueScriptStream a7 w7) \<le> 1"
    "snd (transcribeAudio a8 g8 w8) \<le> 1"
    "snd (suggestPrompts a9 w9) \<le> 1"
    "snd (generateTts a10 w10) \<le> 1"
    "snd (generateVideo a11 w11) \<le> 1"
    "snd (checkVideoOperation a12 w12) \<le> 1"
    by (simp_all add: generateText_def generateGroundedContent_def generateImage_def
        analyzeImage_def analyzeVideo_def generateScriptStream_def continueScriptStream_def
        transcribeAudio_def suggestPrompts_def generateTts_def
        generateVideo_def checkVideoOperation_def calls_of_steps split: sum.splits)
  have a: "err_class api_key_invalid = ApiKeyError"
    by (simp add: api_key_invalid_def)
  show ?thesis
    using h a missing failing once by (simp only: simp_thms)
qed

theorem facade_credential_error_classification_witness:
  "generateText (Some ''key'')
       (Inl \<lparr>err_class = Error, message = Some ''Quota exceeded.'', status = Some 429\<rparr>)
     = (Inl api_key_invalid, 1)
   \<and> checkVideoOperation (Some ''key'')
       (Inl \<lparr>err_class = Error, message = Some ''Internal error.'', status = Some 500\<rparr>)
     = (Inl \<lparr>err_class = Error, message = Some ''Internal error.'', status = Some 500\<rparr>, 1)
   \<and> generateImage None (Inr [''bytes'']) = (Inl api_key_invalid, 0)
   \<and> transcribeAudio (Some []) (Inr ''audio'') (Inr ''words'') = (Inl api_key_invalid, 0)"
proof -
  have quota: "generateText (Some ''key'')
       (Inl \<lparr>err_class = Error, message = Some ''Quota exceeded.'', status = Some 429\<rparr>)
     = (Inl api_key_invalid, 1)"
    and none: "generateImage None (Inr [''bytes'']) = (Inl api_key_invalid, 0)"
    using facade_credential_error_classification
      [of "\<lparr>err_class = Error, message = Some ''Quota exceeded.'', status = Some 429\<rparr>"
          "''Quota exceeded.''" "''key''" None _ _ _ "Inr [''bytes'']"]
    by (simp_all add: credential_failure_def)
  have internal: "checkVideoOperation (Some ''key'')
       (Inl \<lparr>err_class = Error, message = Some ''Internal error.'', status = Some 500\<rparr>)
     = (Inl \<lparr>err_class = Error, message = Some ''Internal error.'', status = Some 500\<rparr>, 1)"
    and empty: "transcribeAudio (Some []) (Inr ''audio'') (Inr ''words'') = (Inl api_key_invalid, 0)"
    using facade_credential_error_classification
      [of "\<lparr>err_class = Error, message = Some ''Internal error.'', status = Some 500\<rparr>"
          "''Internal error.''" "''key''" "Some []" _ _ _ _ _ _ _ _ _ _ "Inr ''audio''" "Inr ''words''"
          _ _ _ _ _ "Some ''key''"]
    by (simp_all add: credential_failure_def)
  show ?thesis
    using quota none internal empty by (simp only: simp_thms)
qed

section \<open>Properties of the grounding sources\<close>

lemma findIndex_at_position:
  assumes "P x"
  shows "findIndex P (pre @ x # post) = int (length pre) \<longleftrightarrow> (\<forall>y\<in>set pre. \<not> P y)"
  using assms by (induction pre) (auto simp: Let_def)

lemma filter_index_from:
  "map snd (filter (\<lambda>(index, x). int index = findIndex (\<lambda>s. src_uri s = src_uri x) (pre @ xs))
              (enumerate (length pre) xs))
     = dedup_by_uri (src_uri ` set pre) xs"
proof (induction xs arbitrary: pre)
  case Nil
  show ?case by simp
next
  case (Cons x xs)
  have tail: "map snd (filter (\<lambda>(index, y). int index = findIndex (\<lambda>s. src_uri s = src_uri y) (pre @ x # xs))
              (enumerate (Suc (length pre)) xs))
     = dedup_by_uri (insert (src_uri x) (src_uri ` set pre)) xs"
    using Cons.IH [of "pre @ [x]"] by simp
  have head: "int (length pre) = findIndex (\<lambda>s. src_uri s = src_uri x) (pre @ x # xs)
                \<longleftrightarrow> src_uri x \<notin> src_uri ` set pre"
  proof -
    have "findIndex (\<lambda>s. src_uri s = src_uri x) (pre @ x # xs) = int (length pre)
            \<longleftrightarrow> (\<forall>y\<in>set pre. src_uri y \<noteq> src_uri x)"
      by (rule findIndex_at_position) simp
    moreover have "(\<forall>y\<in>set pre. src_uri y \<noteq> src_uri x) \<longleftrightarrow> src_uri x \<notin> src_uri ` set pre"
      by (metis image_iff)
    ultimately show ?thesis
      by (metis (lifting))
  qed
  show ?case
  proof (cases "src_uri x \<in> src_uri ` set pre")
    case True
    then have "insert (src_uri x) (src_uri ` set pre) = src_uri ` set pre"
      by auto
    with True head tail show ?thesis by simp
  next
    case False
    with head tail show ?thesis by simp
  qed
qed

lemma groundingSources_of_dedup:
  "groundingSources_of cs = dedup_by_uri {} (web_sources cs)"
  using filter_index_from [of "[]" "web_sources cs"]
  by (simp add: groundingSources_of_def filter_index_def)

lemma dedup_by_uri_uris:
  "src_uri ` set (dedup_by_uri seen xs) = src_uri ` set xs - seen"
  by (induction xs arbitrary: seen) auto

lemma dedup_by_uri_distinct: "distinct (map src_uri (dedup_by_uri seen xs))"
proof (induction xs arbitrary: seen)
  case Nil
  show ?case by simp
next
  case (Cons x xs)
  have "src_uri x \<notin> src_uri ` set (dedup_by_uri (insert (src_uri x) seen) xs)"
    by (simp add: dedup_by_uri_uris)
  then show ?case
    by (simp add: Cons.IH)
qed

lemma dedup_by_uri_subseq: "subseq (dedup_by_uri seen xs) xs"
  by (induction xs arbitrary: seen) auto

lemma dedup_by_uri_find:
  "find (\<lambda>s. src_uri s = u) (dedup_by_uri seen xs) =
     (if u \<in> seen then None else find (\<lambda>s. src_uri s = u) xs)"
  by (induction xs arbitrary: seen) auto


lemma no_call_parts: "fst (no_call r) = r" "snd (no_call r) = 0"
  by (simp_all add: no_call_def)

lemma web_sources_source_pairs: "web_sources cs = source_pairs cs"
  by (induction cs) (simp_all add: web_sources_def js_or_def split: option.splits)

lemma groundingSources_of_source_pairs:
  "groundingSources_of cs = dedup_by_uri {} (source_pairs cs)"
  by (simp add: groundingSources_of_dedup web_sources_source_pairs)

text \<open>
  C6. For every response of a search-grounded call made with a configured key, whether
  or not an image is attached, \<open>generateGroundedContent\<close> returns the response's text
  and the (URI, title) pairs of its grounding chunks deduplicated by URI, after one call
  of the SDK. In the list returned no URI occurs twice, every URI of the chunks occurs,
  the entries stand in the order of the chunks, and the entry kept for a URI is the
  first one that carries it, so that its title is retained.
\<close>

theorem grounding_sources_deduplicated_by_uri:
  assumes "k \<noteq> []"
  shows "generateGroundedContent (Some k) None (Inr r)
           = (Inr (response_text r,
                   dedup_by_uri {} (source_pairs
                     (case groundingChunks r of None \<Rightarrow> [] | Some cs \<Rightarrow> cs))), 1)
     \<and> generateGroundedContent (Some k) (Some (Inr img)) (Inr r)
           = (Inr (response_text r,
                   dedup_by_uri {} (source_pairs
                     (case groundingChunks r of None \<Rightarrow> [] | Some cs \<Rightarrow> cs))), 1)
     \<and> distinct (map src_uri (dedup_by_uri {} (source_pairs cs)))
     \<and> src_uri ` set (dedup_by_uri {} (source_pairs cs)) = src_uri ` set (source_pairs cs)
     \<and> subseq (dedup_by_uri {} (source_pairs cs)) (source_pairs cs)
     \<and> find (\<lambda>s. src_uri s = u) (dedup_by_uri {} (source_pairs cs))
         = find (\<lambda>s. src_uri s = u) (source_pairs cs)"
proof -
  have g: "getGenAI (Some k) = Inr k"
    using assms by (rule getGenAI_configured)
  have call: "generateGroundedContent (Some k) None (Inr r)
           = (Inr (response_text r,
                   dedup_by_uri {} (source_pairs
                     (case groundingChunks r of None \<Rightarrow> [] | Some cs \<Rightarrow> cs))), 1)"
    "generateGroundedContent (Some k) (Some (Inr img)) (Inr r)
           = (Inr (response_text r,
                   dedup_by_uri {} (source_pairs
                     (case groundingChunks r of None \<Rightarrow> [] | Some cs \<Rightarrow> cs))), 1)"
    by (simp_all add: generateGroundedContent_def g and_then_no_call and_then_sdk_call
        no_call_parts catch_rethrow_simps groundingSources_of_source_pairs)
  show ?thesis
    using call
    by (simp add: dedup_by_uri_distinct dedup_by_uri_uris dedup_by_uri_subseq dedup_by_uri_find)
qed

theorem grounding_sources_deduplicated_by_uri_witness:
  "generateGroundedContent (Some ''key'') None
         (Inr \<lparr>response_text = ''answer'',
               groundingChunks = Some [web_chunk_of ''a'' ''A1'', web_chunk_of ''b'' ''B'',
                                       web_chunk_of ''a'' ''A2'']\<rparr>)
       = (Inr (''answer'', [\<lparr>src_uri = Some ''a'', src_title = Some ''A1''\<rparr>,
                            \<lparr>src_uri = Some ''b'', src_title = Some ''B''\<rparr>]), 1)"
  using grounding_sources_deduplicated_by_uri
    [of "''key''" "\<lparr>response_text = ''answer'',
               groundingChunks = Some [web_chunk_of ''a'' ''A1'', web_chunk_of ''b'' ''B'',
                                       web_chunk_of ''a'' ''A2'']\<rparr>"]
  by (simp add: web_chunk_of_def)

lemma grounding_example_by_evaluation:
  "groundingSources_of [web_chunk_of ''a'' ''A1'', web_chunk_of ''b'' ''B'', web_chunk_of ''a'' ''A2'']
     = [\<lparr>src_uri = Some ''a'', src_title = Some ''A1''\<rparr>,
        \<lparr>src_uri = Some ''b'', src_title = Some ''B''\<rparr>]"
  by (simp add: groundingSources_of_def filter_index_def web_sources_def web_chunk_of_def js_or_def)

section \<open>Properties of the job poller\<close>

lemma pollOperation_loop_done:
  "op_done operation \<Longrightarrow> pollOperation_loop apiKey operation answers st = (Returned operation, st)"
  by (cases answers) simp_all

lemma surface_status_polls: "polls (surface_status operation st) = polls st"
  by (simp add: surface_status_def split: option.splits)

lemma surface_status_log:
  "progress_log (surface_status operation st) = progress_log st @ truthy_progress operation"
  by (simp add: surface_status_def truthy_progress_def split: option.splits)

lemma pending_Inl: "fst (checkVideoOperation apiKey answer) = Inl err \<Longrightarrow> \<not> pending apiKey answer"
  by (simp add: pending_def)

lemma pending_Inr:
  "fst (checkVideoOperation apiKey answer) = Inr polled \<Longrightarrow> pending apiKey answer = (\<not> op_done polled)"
  by (simp add: pending_def)

lemma pollOperation_loop_outcome:
  "fst (pollOperation_loop apiKey operation answers st) =
     (if op_done operation then Returned operation
      else case dropWhile (pending apiKey) answers of
             [] \<Rightarrow> StillPolling
           | answer # later \<Rightarrow>
               (case fst (checkVideoOperation apiKey answer) of
                  Inl err \<Rightarrow> Raised err | Inr polled \<Rightarrow> Returned polled))"
proof (induction answers arbitrary: operation st)
  case Nil
  show ?case by simp
next
  case (Cons answer answers)
  show ?case
  proof (cases "fst (checkVideoOperation apiKey answer)")
    case (Inl err)
    then show ?thesis by (simp add: pending_Inl)
  next
    case (Inr polled)
    then show ?thesis
      by (cases "op_done polled") (simp_all add: pending_Inr Cons.IH pollOperation_loop_done)
  qed
qed

lemma pollOperation_loop_polls:
  "polls (snd (pollOperation_loop apiKey operation answers st)) =
     polls st + (if op_done operation then 0
                 else length (takeWhile (pending apiKey) answers)
                      + (if dropWhile (pending apiKey) answers = [] then 0 else 1))"
proof (induction answers arbitrary: operation st)
  case Nil
  show ?case by simp
next
  case (Cons answer answers)
  show ?case
  proof (cases "fst (checkVideoOperation apiKey answer)")
    case (Inl err)
    then show ?thesis by (simp add: pending_Inl)
  next
    case (Inr polled)
    then show ?thesis
      by (cases "op_done polled")
         (simp_all add: pending_Inr Cons.IH pollOperation_loop_done surface_status_polls)
  qed
qed

lemma pollOperation_loop_log:
  "progress_log (snd (pollOperation_loop apiKey operation answers st)) =
     progress_log st @
       (if op_done operation then []
        else reported_progress apiKey
               (takeWhile (pending apiKey) answers @ take 1 (dropWhile (pending apiKey) answers)))"
proof (induction answers arbitrary: operation st)
  case Nil
  show ?case by (simp add: reported_progress_def)
next
  case (Cons answer answers)
  show ?case
  proof (cases "fst (checkVideoOperation apiKey answer)")
    case (Inl err)
    then show ?thesis by (simp add: pending_Inl reported_progress_def)
  next
    case (Inr polled)
    then show ?thesis
      by (cases "op_done polled")
         (simp_all add: pending_Inr Cons.IH pollOperation_loop_done surface_status_log
            reported_progress_def)
  qed
qed

lemma pollOperation_fst:
  "fst (pollOperation apiKey operation answers st) = fst (pollOperation_loop apiKey operation answers st)"
  by (simp add: pollOperation_def split: prod.splits outcome.splits)

lemma pollOperation_polls:
  "polls (snd (pollOperation apiKey operation answers st))
     = polls (snd (pollOperation_loop apiKey operation answers st))"
  by (simp add: pollOperation_def split: prod.splits outcome.splits)

text \<open>
  C3. The wait of \<open>pollOperation\<close> goes on exactly as long as the polls return
  operations that are not done. It ends at the first answer that is not of that kind:
  an operation that is done is returned, an exception of the poll is thrown on as it
  is, with no retry. The number of polls is the number of answers that kept the wait
  going, plus one for the answer that ended it: nothing is polled after \<open>done\<close> has
  been seen, and an operation that is done from the start is not polled at all.
\<close>

theorem pollOperation_exits_on_done_or_error:
  "fst (pollOperation apiKey operation answers st) =
     (if op_done operation then Returned operation
      else case dropWhile (pending apiKey) answers of
             [] \<Rightarrow> StillPolling
           | answer # later \<Rightarrow>
               (case fst (checkVideoOperation apiKey answer) of
                  Inl err \<Rightarrow> Raised err | Inr polled \<Rightarrow> Returned polled))
   \<and> polls (snd (pollOperation apiKey operation answers st)) =
     polls st + (if op_done operation then 0
                 else length (takeWhile (pending apiKey) answers)
                      + (if dropWhile (pending apiKey) answers = [] then 0 else 1))"
  by (simp only: pollOperation_fst pollOperation_polls pollOperation_loop_outcome
      pollOperation_loop_polls simp_thms)

lemma pollOperation_returns_only_done:
  assumes "fst (pollOperation apiKey operation answers st) = Returned polled"
  shows "op_done polled"
proof (cases "op_done operation")
  case True
  with assms show ?thesis
    by (simp add: pollOperation_fst pollOperation_loop_outcome)
next
  case False
  show ?thesis
  proof (cases "dropWhile (pending apiKey) answers")
    case Nil
    with assms False show ?thesis
      by (simp add: pollOperation_fst pollOperation_loop_outcome)
  next
    case (Cons answer later)
    then have "\<not> pending apiKey answer"
      by (metis hd_dropWhile list.sel(1) list.distinct(1))
    with assms False Cons show ?thesis
      by (auto simp: pollOperation_fst pollOperation_loop_outcome pending_def split: sum.splits)
  qed
qed

lemma pollOperation_exits_when_answered:
  assumes "\<not> pending apiKey answer"
  shows "fst (pollOperation apiKey operation (waiting @ answer # later) st) \<noteq> StillPolling"
proof -
  have "dropWhile (pending apiKey) (waiting @ answer # later) \<noteq> []"
    using assms by simp
  then show ?thesis
    by (auto simp: pollOperation_fst pollOperation_loop_outcome split: list.splits sum.splits)
qed


lemma pollOperation_log:
  "progress_log (snd (pollOperation apiKey operation answers st)) =
     progress_log (snd (pollOperation_loop apiKey operation answers st))
       @ (case fst (pollOperation_loop apiKey operation answers st) of
            Returned polled \<Rightarrow> [100] | Raised err \<Rightarrow> [] | StillPolling \<Rightarrow> [])"
  by (simp add: pollOperation_def split: prod.splits outcome.splits)

text \<open>
  C9 as stated fails: the poller hands every truthy \<open>progressPercent\<close> to
  \<open>setProgress\<close> as it is. When the vendor answers 50, then 30, then done, the panel is
  given 50, 30 and, on completion, 100.
\<close>

theorem progress_decreases_counterexample:
  "progress_log (snd (pollOperation (Some ''key'')
       \<lparr>op_done = False, metadata = None, video_uri = None\<rparr>
       [polled_operation False (Some 50), polled_operation False (Some 30),
        polled_operation True None]
       \<lparr>progress = 0, loadingMessage = Initializing, progress_log = [], polls = 0\<rparr>))
     = [50, 30, 100]
   \<and> \<not> sorted [50, 30, 100 :: int]"
  by (simp add: pollOperation_def polled_operation_def checkVideoOperation_def
      catch_rethrow_simps and_then_sdk_call no_call_def surface_status_def)

text \<open>
  C9, amended. The poller surfaces the progress the vendor reports, unchanged: the
  values given to \<open>setProgress\<close> are the truthy \<open>progressPercent\<close> values of the polls made,
  in poll order, followed by 100 when the wait returns. Over the polls they are therefore
  non-decreasing exactly when the reported values are.
\<close>

theorem poller_surfaces_reported_progress:
  "progress_log (snd (pollOperation apiKey operation answers st)) =
     progress_log st
       @ (if op_done operation then []
          else reported_progress apiKey
                 (takeWhile (pending apiKey) answers @ take 1 (dropWhile (pending apiKey) answers)))
       @ (case fst (pollOperation apiKey operation answers st) of
            Returned polled \<Rightarrow> [100] | Raised err \<Rightarrow> [] | StillPolling \<Rightarrow> [])
   \<and> sorted (progress_log (snd (pollOperation_loop apiKey operation answers
                 (st\<lparr>progress_log := []\<rparr>))))
       = sorted (if op_done operation then []
                 else reported_progress apiKey
                        (takeWhile (pending apiKey) answers
                           @ take 1 (dropWhile (pending apiKey) answers)))"
  by (simp only: pollOperation_log pollOperation_fst pollOperation_loop_log append_assoc)
     simp

end
